theory Spec2Isabelle
  imports Main "HOL-Library.Sublist" "HOL-Library.Multiset"
begin

section \<open>Shared data\<close>

text \<open>
  The client is a set of React pages. Each page is modelled by a record of its state
  variables, each handler by a function on that record, and everything a handler does to
  the outside (requests, sockets, timers, navigation, dialogs) by a value of \<open>effect\<close>,
  listed in the order the calls are made. An awaited response is an argument of the
  handler: \<open>Inl\<close> when the promise rejects, \<open>Inr\<close> with the payload otherwise.
\<close>

datatype error = TypeError | ServiceError

datatype body =
    PromptBody string
  | DeckBody string string "int option" "int option" bool

datatype effect =
    HttpGet string
  | HttpPost string body
  | WsOpen string
  | WsClose
  | SetTimeout nat string
  | Navigate string
  | Alert string
  | ConsoleError error
  | ClipboardWrite string
  | Download string

definition API_URL :: string where
  "API_URL = ''http://localhost:8000/api''"

definition WS_URL :: string where
  "WS_URL = ''ws://localhost:8000/ws/process''"

text \<open>
  A card as the deck payload carries it. \<open>type_line\<close> is \<open>None\<close> when the payload has no
  string there: calling \<open>includes\<close> on such a value raises a TypeError. \<open>quantity\<close> is the
  inventory field of the data model; no function of the results page reads it.
\<close>

record card =
  name :: string
  type_line :: "string option"
  image_uri :: "string option"
  quantity :: nat

text \<open>
  The deck payload of \<open>GET /deck/{id}\<close>: the commander's name, the job status and the
  cards. Its creation date and combo list are left out.
\<close>

record deck =
  deck_commander :: string
  deck_status :: string
  cards :: "card list"

section \<open>Results page: card categorisation\<close>

text \<open>\<open>String.prototype.includes\<close>: the key occurs at some position of the text.\<close>

fun js_includes :: "string \<Rightarrow> string \<Rightarrow> bool" where
  "js_includes [] key = (key = [])"
| "js_includes (c # cs) key = (prefix key (c # cs) \<or> js_includes cs key)"

text \<open>
  The \<open>categories\<close> object is an association list in insertion order, which is the order
  \<open>Object.keys\<close> and \<open>Object.entries\<close> enumerate string keys in.
\<close>

type_synonym categories = "(string \<times> card list) list"

definition categories_init :: categories where
  "categories_init =
     [(''Creature'', []), (''Planeswalker'', []), (''Instant'', []), (''Sorcery'', []),
      (''Artifact'', []), (''Enchantment'', []), (''Land'', [])]"

text \<open>\<open>categories[key].push(card)\<close>\<close>

definition push :: "string \<Rightarrow> card \<Rightarrow> categories \<Rightarrow> categories" where
  "push key c cats = map (\<lambda>(k, cs). if k = key then (k, cs @ [c]) else (k, cs)) cats"

text \<open>
  The inner \<open>for (const key of Object.keys(categories))\<close> loop with its \<open>break\<close>: the first
  key the type line includes, \<open>None\<close> when the loop ends with \<open>added\<close> still false.
\<close>

fun scan_keys :: "string option \<Rightarrow> string list \<Rightarrow> error + string option" where
  "scan_keys ty [] = Inr None"
| "scan_keys ty (key # keys) =
     (case ty of
        None \<Rightarrow> Inl TypeError
      | Some t \<Rightarrow> if js_includes t key then Inr (Some key) else scan_keys ty keys)"

text \<open>The body of \<open>deck.cards.forEach\<close> for one card.\<close>

definition categorize_card :: "categories \<Rightarrow> card \<Rightarrow> error + categories" where
  "categorize_card cats c =
     (case scan_keys (type_line c) (map fst cats) of
        Inl e \<Rightarrow> Inl e
      | Inr (Some key) \<Rightarrow> Inr (push key c cats)
      | Inr None \<Rightarrow>
          Inr (push ''Other'' c
                (if map_of cats ''Other'' = None then cats @ [(''Other'', [])] else cats)))"

fun categorize_loop :: "categories \<Rightarrow> card list \<Rightarrow> error + categories" where
  "categorize_loop cats [] = Inr cats"
| "categorize_loop cats (c # cs) =
     (case categorize_card cats c of
        Inl e \<Rightarrow> Inl e
      | Inr cats' \<Rightarrow> categorize_loop cats' cs)"

text \<open>One render pass: a fresh \<open>categories\<close> object, then the loop over the deck's cards.\<close>

definition categorize_cards :: "card list \<Rightarrow> error + categories" where
  "categorize_cards cs = categorize_loop categories_init cs"

text \<open>
  The page rendered \<open>n\<close> times with the same deck. Every pass runs the component body
  anew, so each starts from the \<open>categories\<close> literal and keeps nothing of the pass before.
\<close>

fun render_passes :: "nat \<Rightarrow> card list \<Rightarrow> (error + categories) list" where
  "render_passes 0 cs = []"
| "render_passes (Suc n) cs = categorize_loop categories_init cs # render_passes n cs"

text \<open>The bucket stored under a key; empty when the key is absent.\<close>

definition bucket :: "categories \<Rightarrow> string \<Rightarrow> card list" where
  "bucket cats k = (case map_of cats k of None \<Rightarrow> [] | Some cs \<Rightarrow> cs)"

subsection \<open>The classifier as the specification words it\<close>

definition category_order :: "string list" where
  "category_order =
     [''Creature'', ''Planeswalker'', ''Instant'', ''Sorcery'', ''Artifact'', ''Enchantment'',
      ''Land'']"

text \<open>
  The first category, in declared order, whose name is a substring of the type line;
  \<open>Other\<close> when there is none.
\<close>

definition first_category :: "string \<Rightarrow> string" where
  "first_category t =
     (case find (\<lambda>k. sublist k t) category_order of None \<Rightarrow> ''Other'' | Some k \<Rightarrow> k)"

definition assigned :: "card \<Rightarrow> string option" where
  "assigned c = map_option first_category (type_line c)"

definition string_typed :: "card list \<Rightarrow> bool" where
  "string_typed cs = list_all (\<lambda>c. type_line c \<noteq> None) cs"

definition expected :: "card list \<Rightarrow> categories" where
  "expected cs =
     map (\<lambda>k. (k, filter (\<lambda>c. assigned c = Some k) cs)) category_order @
     (if list_ex (\<lambda>c. assigned c = Some ''Other'') cs
      then [(''Other'', filter (\<lambda>c. assigned c = Some ''Other'') cs)] else [])"

section \<open>Results page: loading and exporting the deck\<close>

record results_state =
  deck :: "deck option"
  showCombos :: bool

definition Results_init :: results_state where
  "Results_init = \<lparr>deck = None, showCombos = False\<rparr>"

text \<open>
  \<open>fetchDeck\<close> of the page's effect: the request, then \<open>setDeck\<close> on a response and
  \<open>console.error\<close> on a rejection.
\<close>

definition fetchDeck :: "string \<Rightarrow> results_state \<Rightarrow> error + deck \<Rightarrow> results_state \<times> effect list" where
  "fetchDeck jid s res =
     (case res of
        Inr data \<Rightarrow> (s\<lparr>deck := Some data\<rparr>, [HttpGet (API_URL @ ''/deck/'' @ jid)])
      | Inl err \<Rightarrow> (s, [HttpGet (API_URL @ ''/deck/'' @ jid), ConsoleError err]))"

text \<open>What the page shows: the placeholder, or the whole page built from the deck.\<close>

datatype view = Loading | Page string "(string \<times> card list) list" bool

text \<open>\<open>CardSection\<close> renders nothing for an empty bucket; its title is the key with an s.\<close>

definition CardSection :: "string \<times> card list \<Rightarrow> (string \<times> card list) option" where
  "CardSection kc = (if snd kc = [] then None else Some (fst kc @ ''s'', snd kc))"

definition render :: "results_state \<Rightarrow> error + view" where
  "render s =
     (case deck s of
        None \<Rightarrow> Inr Loading
      | Some d \<Rightarrow>
          (case categorize_cards (cards d) of
             Inl e \<Rightarrow> Inl e
           | Inr cats \<Rightarrow>
               Inr (Page (deck_commander d) (List.map_filter CardSection cats) (showCombos s))))"

text \<open>\<open>Array.prototype.join\<close>\<close>

fun join :: "string \<Rightarrow> string list \<Rightarrow> string" where
  "join sep [] = []"
| "join sep [x] = x"
| "join sep (x # y # ys) = x @ sep @ join sep (y # ys)"

text \<open>
  The two export actions. Each builds its own \<open>content\<close>; the file name of the download is
  not modelled.
\<close>

definition downloadDeck :: "deck \<Rightarrow> effect list" where
  "downloadDeck d = [Download (join [CHR 0x0A] (map (\<lambda>c. ''1 '' @ name c) (cards d)))]"

definition copyDeck :: "deck \<Rightarrow> effect list" where
  "copyDeck d =
     [ClipboardWrite (join [CHR 0x0A] (map (\<lambda>c. ''1 '' @ name c) (cards d))),
      Alert ''Deck list copied to clipboard!'']"

text \<open>
  The export as the specification words it: one line per card, in deck order, each line
  the literal 1, a space and the card's name.
\<close>

fun exportAsText :: "card list \<Rightarrow> string" where
  "exportAsText [] = []"
| "exportAsText [c] = ''1 '' @ name c"
| "exportAsText (c # c' # cs) = ''1 '' @ name c @ [CHR 0x0A] @ exportAsText (c' # cs)"

definition alerts :: "effect list \<Rightarrow> string list" where
  "alerts es = concat (map (\<lambda>e. case e of Alert m \<Rightarrow> [m] | _ \<Rightarrow> []) es)"

definition navigations :: "effect list \<Rightarrow> string list" where
  "navigations es = concat (map (\<lambda>e. case e of Navigate p \<Rightarrow> [p] | _ \<Rightarrow> []) es)"

definition posts :: "effect list \<Rightarrow> string list" where
  "posts es = concat (map (\<lambda>e. case e of HttpPost u b \<Rightarrow> [u] | _ \<Rightarrow> []) es)"

definition opened :: "effect list \<Rightarrow> string list" where
  "opened es = concat (map (\<lambda>e. case e of WsOpen u \<Rightarrow> [u] | _ \<Rightarrow> []) es)"

section \<open>Process page: the job monitor\<close>

record log_event =
  timestamp :: nat
  agent_name :: string
  message :: string

text \<open>An inbound frame: text \<open>JSON.parse\<close> rejects, or a parsed log event.\<close>

datatype frame = BadJSON | Frame log_event

text \<open>
  The page's state variables, and what the handlers registered by the effect depend on:
  whether the status request is still unanswered, whether \<open>ws.close\<close> has been called,
  the pending timer callbacks (each a navigation target) and the calls made so far.
\<close>

record process_state =
  logs :: "log_event list"
  status :: string
  fetch_pending :: bool
  ws_closed :: bool
  timers :: "string list"
  effects :: "effect list"

text \<open>
  The first run of the effect: \<open>checkStatus()\<close> runs up to its \<open>await\<close>, which sends the
  request; then the socket is constructed and its handler set.
\<close>

definition mount :: "string \<Rightarrow> process_state" where
  "mount jid =
     \<lparr>logs = [], status = ''pending'', fetch_pending = True, ws_closed = False, timers = [],
      effects = [HttpGet (API_URL @ ''/deck/'' @ jid), WsOpen (WS_URL @ ''/'' @ jid)]\<rparr>"

text \<open>\<open>checkStatus\<close> after its \<open>await\<close>; the payload is \<open>res.data.status\<close>.\<close>

definition checkStatus :: "string \<Rightarrow> process_state \<Rightarrow> error + string \<Rightarrow> process_state" where
  "checkStatus jid s res =
     (case res of
        Inr st \<Rightarrow>
          (if st = ''completed''
           then s\<lparr>status := st, effects := effects s @ [Navigate (''/results/'' @ jid)]\<rparr>
           else s\<lparr>status := st\<rparr>)
      | Inl err \<Rightarrow> s\<lparr>effects := effects s @ [ConsoleError err]\<rparr>)"

definition sentinel :: string where
  "sentinel = ''Deck generation complete.''"

text \<open>\<open>ws.onmessage\<close>. A frame that does not parse throws before any state is set.\<close>

definition onmessage :: "string \<Rightarrow> process_state \<Rightarrow> frame \<Rightarrow> process_state" where
  "onmessage jid s f =
     (case f of
        BadJSON \<Rightarrow> s
      | Frame msg \<Rightarrow>
          (if message msg = sentinel
           then s\<lparr>logs := logs s @ [msg], status := ''completed'',
                  timers := timers s @ [''/results/'' @ jid],
                  effects := effects s @ [SetTimeout 2000 (''/results/'' @ jid)]\<rparr>
           else s\<lparr>logs := logs s @ [msg]\<rparr>))"

text \<open>The effect's cleanup: \<open>ws.close()\<close>.\<close>

definition cleanup :: "process_state \<Rightarrow> process_state" where
  "cleanup s = s\<lparr>ws_closed := True, effects := effects s @ [WsClose]\<rparr>"

text \<open>The oldest pending timer fires and runs its callback, \<open>navigate\<close>.\<close>

definition timer_fire :: "process_state \<Rightarrow> process_state" where
  "timer_fire s =
     (case timers s of
        [] \<Rightarrow> s
      | p # ps \<Rightarrow> s\<lparr>timers := ps, effects := effects s @ [Navigate p]\<rparr>)"

text \<open>
  What the event loop can deliver after the mount. The status response arrives at most
  once; a closed socket delivers no message; the cleanup runs once; timers are not
  cleared by the cleanup.
\<close>

datatype event = StatusResponse "error + string" | WsMessage frame | TimerFire | Unmount

definition step :: "string \<Rightarrow> process_state \<Rightarrow> event \<Rightarrow> process_state" where
  "step jid s ev =
     (case ev of
        StatusResponse res \<Rightarrow>
          (if fetch_pending s then checkStatus jid (s\<lparr>fetch_pending := False\<rparr>) res else s)
      | WsMessage f \<Rightarrow> (if ws_closed s then s else onmessage jid s f)
      | TimerFire \<Rightarrow> timer_fire s
      | Unmount \<Rightarrow> (if ws_closed s then s else cleanup s))"

definition run :: "string \<Rightarrow> process_state \<Rightarrow> event list \<Rightarrow> process_state" where
  "run jid s evs = foldl (step jid) s evs"

definition is_sentinel :: "frame \<Rightarrow> bool" where
  "is_sentinel f = (case f of BadJSON \<Rightarrow> False | Frame msg \<Rightarrow> message msg = sentinel)"

definition parsed :: "frame list \<Rightarrow> log_event list" where
  "parsed fs = concat (map (\<lambda>f. case f of BadJSON \<Rightarrow> [] | Frame msg \<Rightarrow> [msg]) fs)"

section \<open>Generator page: commander and deck requests\<close>

record commander =
  cmd_name :: string
  reasoning :: string
  cmd_image_uri :: "string option"

text \<open>
  The numeric settings hold what \<open>parseInt\<close> returned: an integer, or \<open>None\<close> for NaN.
\<close>

record generator_state =
  prompt :: string
  commander :: "commander option"
  loadingCmd :: bool
  mode :: string
  numAgents :: "int option"
  numDecks :: "int option"
  useOwned :: bool

text \<open>
  \<open>generateCommander\<close>: the state after the call settles and the calls it made. The
  closure reads \<open>prompt\<close> as it was when the button was pressed.
\<close>

definition generateCommander ::
    "generator_state \<Rightarrow> error + commander \<Rightarrow> generator_state \<times> effect list" where
  "generateCommander s res =
     (case res of
        Inr data \<Rightarrow>
          (s\<lparr>commander := Some data, loadingCmd := False\<rparr>,
           [HttpPost (API_URL @ ''/generate/commander'') (PromptBody (prompt s))])
      | Inl err \<Rightarrow>
          (s\<lparr>loadingCmd := False\<rparr>,
           [HttpPost (API_URL @ ''/generate/commander'') (PromptBody (prompt s)),
            Alert ''Failed to generate commander'']))"

text \<open>Decimal digits of a natural number, for the template literal of the notice.\<close>

function show_nat :: "nat \<Rightarrow> string" where
  "show_nat n =
     (if n < 10 then [''0123456789'' ! n]
      else show_nat (n div 10) @ [''0123456789'' ! (n mod 10)])"
  by pat_completeness auto
termination
  by (relation "measure id") auto

declare show_nat.simps [simp del]

definition ToString :: "int option \<Rightarrow> string" where
  "ToString v =
     (case v of
        None \<Rightarrow> ''NaN''
      | Some n \<Rightarrow> if n < 0 then ''-'' @ show_nat (nat (- n)) else show_nat (nat n))"

text \<open>\<open>numDecks > 1\<close>; a comparison with NaN is false.\<close>

definition gt1 :: "int option \<Rightarrow> bool" where
  "gt1 v = (case v of None \<Rightarrow> False | Some n \<Rightarrow> 1 < n)"

text \<open>\<open>generateDeck\<close>; the payload of the response is \<open>res.data.deck_id\<close>.\<close>

definition generateDeck ::
    "generator_state \<Rightarrow> error + string \<Rightarrow> generator_state \<times> effect list" where
  "generateDeck s res =
     (case commander s of
        None \<Rightarrow> (s, [])
      | Some c \<Rightarrow>
          (case res of
             Inr deck_id \<Rightarrow>
               (s,
                [HttpPost (API_URL @ ''/generate/deck'')
                   (DeckBody (cmd_name c) (mode s) (numAgents s) (numDecks s) (useOwned s))] @
                (if gt1 (numDecks s)
                 then [Alert (''Started generating '' @ ToString (numDecks s) @
                              '' decks. Redirecting to the first one.'')]
                 else []) @
                [Navigate (''/process/'' @ deck_id)])
           | Inl err \<Rightarrow>
               (s,
                [HttpPost (API_URL @ ''/generate/deck'')
                   (DeckBody (cmd_name c) (mode s) (numAgents s) (numDecks s) (useOwned s)),
                 Alert ''Failed to start generation''])))"

section \<open>Example inputs\<close>

text \<open>
  A small deck: a creature, a land creature, a card of a type outside the seven
  categories, and a land.
\<close>

definition demo_cards :: "card list" where
  "demo_cards =
     [\<lparr>name = ''Llanowar Elves'', type_line = Some ''Creature - Elf Druid'', image_uri = None,
       quantity = 1\<rparr>,
      \<lparr>name = ''Dryad Arbor'', type_line = Some ''Land Creature - Forest Dryad'',
       image_uri = None, quantity = 1\<rparr>,
      \<lparr>name = ''Secret Summoning'', type_line = Some ''Conspiracy'', image_uri = None,
       quantity = 1\<rparr>,
      \<lparr>name = ''Forest'', type_line = Some ''Basic Land - Forest'', image_uri = None,
       quantity = 4\<rparr>]"

text \<open>A generator page holding a commander, set to three decks.\<close>

definition demo_commander :: commander where
  "demo_commander =
     \<lparr>cmd_name = ''Krenko, Mob Boss'', reasoning = ''a fast goblin aggro deck'',
      cmd_image_uri = None\<rparr>"

definition demo_generator :: generator_state where
  "demo_generator =
     \<lparr>prompt = ''a fast goblin aggro deck'', commander = Some demo_commander,
      loadingCmd = False, mode = ''Thinking'', numAgents = Some 1, numDecks = Some 3,
      useOwned = False\<rparr>"

text \<open>Two stream events: the completion message and an ordinary progress message.\<close>

definition done_event :: log_event where
  "done_event = \<lparr>timestamp = 1700000000, agent_name = ''System'', message = ''Deck generation complete.''\<rparr>"

definition progress_event :: log_event where
  "progress_event = \<lparr>timestamp = 1700000000, agent_name = ''Builder'', message = ''Picking lands''\<rparr>"

section \<open>Properties of the card categorisation\<close>

subsection \<open>The loop computes the buckets of the first-match rule\<close>

lemma js_includes_sublist: "js_includes t k = sublist k t"
  by (induction t) (auto simp: sublist_Cons_right)

lemma scan_keys_find: "scan_keys (Some t) ks = Inr (find (\<lambda>k. sublist k t) ks)"
  by (induction ks) (simp_all add: js_includes_sublist)

lemma find_append_split:
  "find P (xs @ ys) = (case find P xs of None \<Rightarrow> find P ys | Some x \<Rightarrow> Some x)"
  by (induction xs) simp_all

lemma first_category_cases:
  "first_category t \<in> set category_order \<or> first_category t = ''Other''"
  by (auto simp: first_category_def split: option.splits dest: find_Some_iff[THEN iffD1] simp: in_set_conv_nth)

lemma other_not_category: "''Other'' \<notin> set category_order"
  by (simp add: category_order_def)

lemma expected_Nil: "expected [] = categories_init"
  by (simp add: expected_def categories_init_def category_order_def)

lemma keys_expected:
  "map fst (expected cs) =
     category_order @ (if list_ex (\<lambda>c. assigned c = Some ''Other'') cs then [''Other''] else [])"
  by (simp add: expected_def comp_def)

lemma push_expected:
  assumes "assigned c = Some k" "list_ex (\<lambda>c. assigned c = Some ''Other'') cs \<or> k \<noteq> ''Other''"
  shows "push k c (expected cs) = expected (cs @ [c])"
  using assms by (auto simp: push_def expected_def)


lemma find_category_in_order:
  "find P category_order = Some k \<Longrightarrow> k \<in> set category_order \<and> P k"
  by (auto simp: find_Some_iff)

lemma map_of_expected_Other:
  "(map_of (expected cs) ''Other'' = None) = (\<not> list_ex (\<lambda>c. assigned c = Some ''Other'') cs)"
  by (simp add: expected_def category_order_def)

lemma push_expected_new:
  assumes "assigned c = Some ''Other''" "\<not> list_ex (\<lambda>c. assigned c = Some ''Other'') cs"
  shows "push ''Other'' c (expected cs @ [(''Other'', [])]) = expected (cs @ [c])"
  using assms by (auto simp: push_def expected_def list_ex_iff filter_empty_conv)

lemma categorize_card_expected:
  assumes "type_line c = Some t"
  shows "categorize_card (expected cs) c = Inr (expected (cs @ [c]))"
proof (cases "find (\<lambda>k. sublist k t) category_order")
  case (Some k)
  then have k: "k \<in> set category_order"
    by (simp add: find_category_in_order)
  then have "k \<noteq> ''Other''"
    using other_not_category by auto
  moreover have "assigned c = Some k"
    using assms Some by (simp add: assigned_def first_category_def)
  moreover have "scan_keys (type_line c) (map fst (expected cs)) = Inr (Some k)"
    using assms Some by (simp add: scan_keys_find keys_expected find_append_split)
  ultimately show ?thesis
    by (simp add: categorize_card_def push_expected)
next
  case None
  then have a: "assigned c = Some ''Other''"
    using assms by (simp add: assigned_def first_category_def)
  show ?thesis
  proof (cases "list_ex (\<lambda>c. assigned c = Some ''Other'') cs")
    case True
    then have "scan_keys (type_line c) (map fst (expected cs)) = Inr (Some ''Other'')
        \<or> scan_keys (type_line c) (map fst (expected cs)) = Inr None"
      using assms None by (simp add: scan_keys_find keys_expected find_append_split)
    then show ?thesis
      using a True by (auto simp: categorize_card_def push_expected map_of_expected_Other)
  next
    case False
    then have "scan_keys (type_line c) (map fst (expected cs)) = Inr None"
      using assms None by (simp add: scan_keys_find keys_expected find_append_split)
    then show ?thesis
      using a False by (simp add: categorize_card_def push_expected_new map_of_expected_Other)
  qed
qed

lemma categorize_loop_expected:
  "string_typed cs \<Longrightarrow> categorize_loop (expected done) cs = Inr (expected (done @ cs))"
proof (induction cs arbitrary: "done")
  case Nil
  then show ?case by simp
next
  case (Cons c cs)
  then obtain t where t: "type_line c = Some t" and rest: "string_typed cs"
    by (auto simp: string_typed_def)
  show ?case
    using Cons.IH [OF rest, of "done @ [c]"] by (simp add: categorize_card_expected [OF t])
qed

lemma categorize_cards_expected:
  "string_typed cs \<Longrightarrow> categorize_cards cs = Inr (expected cs)"
  using categorize_loop_expected [of cs "[]"] by (simp add: categorize_cards_def expected_Nil)

lemma assigned_range:
  "assigned c = Some k \<Longrightarrow> k \<in> set category_order \<or> k = ''Other''"
  using first_category_cases by (auto simp: assigned_def)

lemma bucket_expected:
  "bucket (expected cs) k = filter (\<lambda>c. assigned c = Some k) cs"
proof (cases "k \<in> set category_order \<or> k = ''Other''")
  case True
  then show ?thesis
    by (auto simp: bucket_def expected_def category_order_def list_ex_iff filter_empty_conv)
next
  case False
  then have "filter (\<lambda>c. assigned c = Some k) cs = []"
    using assigned_range by (auto simp: filter_empty_conv)
  moreover have "map_of (expected cs) k = None"
    using False by (auto simp: expected_def category_order_def)
  ultimately show ?thesis
    by (simp add: bucket_def)
qed

lemma first_category_Other:
  "(first_category t = ''Other'') = (\<forall>k \<in> set category_order. \<not> sublist k t)"
proof (cases "find (\<lambda>k. sublist k t) category_order")
  case None
  then have "\<forall>k \<in> set category_order. \<not> sublist k t"
    by (simp add: find_None_iff)
  then show ?thesis
    using None by (simp add: first_category_def)
next
  case (Some k)
  then have "k \<in> set category_order \<and> sublist k t"
    by (rule find_category_in_order)
  then show ?thesis
    using Some other_not_category by (auto simp: first_category_def)
qed

lemma concat_expected:
  "concat (map snd (expected cs)) =
     concat (map (\<lambda>k. filter (\<lambda>c. assigned c = Some k) cs) (category_order @ [''Other'']))"
  by (auto simp: expected_def comp_def list_ex_iff filter_empty_conv)

lemma mset_all_buckets:
  "string_typed cs \<Longrightarrow>
   mset (concat (map (\<lambda>k. filter (\<lambda>c. assigned c = Some k) cs) (category_order @ [''Other''])))
     = mset cs"
proof (induction cs)
  case Nil
  then show ?case by (simp add: category_order_def)
next
  case (Cons c cs)
  then obtain t where t: "type_line c = Some t" and rest: "string_typed cs"
    by (auto simp: string_typed_def)
  have "assigned c = Some (first_category t)"
    using t by (simp add: assigned_def)
  moreover have "first_category t \<in> set category_order \<or> first_category t = ''Other''"
    by (rule first_category_cases)
  ultimately show ?case
    using Cons.IH [OF rest] by (auto simp: category_order_def)
qed

lemma mset_expected: "string_typed cs \<Longrightarrow> mset (concat (map snd (expected cs))) = mset cs"
  by (simp only: concat_expected mset_all_buckets)

lemma distinct_keys_expected: "distinct (map fst (expected cs))"
  by (simp add: keys_expected category_order_def)

lemma demo_string_typed: "string_typed demo_cards"
  by (simp add: string_typed_def demo_cards_def)

lemma demo_first_category:
  "first_category ''Creature - Elf Druid'' = ''Creature''"
  "first_category ''Land Creature - Forest Dryad'' = ''Creature''"
  "first_category ''Conspiracy'' = ''Other''"
  "first_category ''Basic Land - Forest'' = ''Land''"
  by (simp_all add: first_category_def category_order_def js_includes_sublist [symmetric])

lemma categorize_cards_untyped:
  "categorize_cards (c\<lparr>type_line := None\<rparr> # cs) = Inl TypeError"
  by (simp add: categorize_cards_def categorize_card_def categories_init_def)

text \<open>
  \<^bold>\<open>C2\<close>. On a deck whose cards all carry a string type line, the categorisation returns,
  under every key, exactly the cards whose first category (the first name of Creature,
  Planeswalker, Instant, Sorcery, Artifact, Enchantment, Land, in that order, that is a
  substring of the type line, and Other when none is) is that key. In particular a card
  whose type line contains both Creature and Land is in the Creature bucket and not in
  the Land bucket.
\<close>

theorem categorize_first_match:
  assumes "string_typed cs"
  shows "\<exists>cats. categorize_cards cs = Inr cats \<and>
           (\<forall>k. bucket cats k = filter (\<lambda>c. assigned c = Some k) cs) \<and>
           (\<forall>c t. c \<in> set cs \<and> type_line c = Some t \<and> sublist ''Creature'' t \<and> sublist ''Land'' t
              \<longrightarrow> c \<in> set (bucket cats ''Creature'') \<and> c \<notin> set (bucket cats ''Land''))"
proof -
  have run: "categorize_cards cs = Inr (expected cs)"
    using assms by (rule categorize_cards_expected)
  have creature: "first_category t = ''Creature''" if "sublist ''Creature'' t" for t
    using that by (simp add: first_category_def category_order_def)
  have "c \<in> set (bucket (expected cs) ''Creature'') \<and> c \<notin> set (bucket (expected cs) ''Land'')"
    if "c \<in> set cs" "type_line c = Some t" "sublist ''Creature'' t" for c t
    using that creature [of t] by (simp add: bucket_expected assigned_def)
  then show ?thesis
    using run bucket_expected by blast
qed

theorem categorize_first_match_witness:
  "string_typed demo_cards \<and>
   (\<exists>cats. categorize_cards demo_cards = Inr cats \<and>
      bucket cats ''Creature'' = [demo_cards ! 0, demo_cards ! 1] \<and>
      bucket cats ''Land'' = [demo_cards ! 3] \<and>
      bucket cats ''Other'' = [demo_cards ! 2] \<and>
      bucket cats ''Instant'' = [])"
proof -
  obtain cats where c: "categorize_cards demo_cards = Inr cats"
    and b: "\<And>k. bucket cats k = filter (\<lambda>c. assigned c = Some k) demo_cards"
    using categorize_first_match [OF demo_string_typed] by blast
  have "bucket cats ''Creature'' = [demo_cards ! 0, demo_cards ! 1]"
    "bucket cats ''Land'' = [demo_cards ! 3]"
    "bucket cats ''Other'' = [demo_cards ! 2]"
    "bucket cats ''Instant'' = []"
    by (simp_all add: b demo_cards_def assigned_def demo_first_category)
  then show ?thesis
    using c demo_string_typed by blast
qed

lemma render_passes_replicate: "render_passes n cs = replicate n (categorize_cards cs)"
  by (induction n) (simp_all add: categorize_cards_def)

lemma member_bucket_expected:
  "(c \<in> set (bucket (expected cs) k)) = (c \<in> set cs \<and> assigned c = Some k)"
  by (simp add: bucket_expected)

lemma string_typed_assigned:
  "string_typed cs \<Longrightarrow> c \<in> set cs \<Longrightarrow> \<exists>t. type_line c = Some t \<and> assigned c = Some (first_category t)"
  by (auto simp: string_typed_def list_all_iff assigned_def)

text \<open>
  \<^bold>\<open>C3\<close>. On string type lines the categorisation never raises: it returns buckets under
  distinct keys whose contents, taken together, are the input cards, each exactly as often
  as it occurs in the deck, and every card of the deck is in the bucket of exactly one
  key, so none is dropped. Every card whose type line contains none of the seven category
  names is in the Other bucket and in no other; a card of type line Conspiracy is one of
  them. Rendering again with the same deck gives the same buckets in every pass.
\<close>

theorem categorize_total:
  assumes "string_typed cs"
  shows "\<exists>cats. categorize_cards cs = Inr cats \<and>
           distinct (map fst cats) \<and>
           mset (concat (map snd cats)) = mset cs \<and>
           (\<forall>c \<in> set cs. \<exists>!k. c \<in> set (bucket cats k)) \<and>
           (\<forall>c \<in> set cs. \<forall>t. type_line c = Some t \<and> (\<forall>k \<in> set category_order. \<not> sublist k t)
              \<longrightarrow> c \<in> set (bucket cats ''Other'') \<and>
                  (\<forall>k. k \<noteq> ''Other'' \<longrightarrow> c \<notin> set (bucket cats k))) \<and>
           (\<forall>c \<in> set cs. type_line c = Some ''Conspiracy'' \<longrightarrow> c \<in> set (bucket cats ''Other'')) \<and>
           (\<forall>n. render_passes n cs = replicate n (Inr cats))"
proof -
  have run: "categorize_cards cs = Inr (expected cs)"
    using assms by (rule categorize_cards_expected)
  have keys: "distinct (map fst (expected cs))"
    by (rule distinct_keys_expected)
  have all: "mset (concat (map snd (expected cs))) = mset cs"
    using assms by (rule mset_expected)
  have one: "\<exists>!k. c \<in> set (bucket (expected cs) k)" if member: "c \<in> set cs" for c
  proof -
    obtain t where "assigned c = Some (first_category t)"
      using string_typed_assigned [OF assms member] by blast
    then show ?thesis
      using member by (auto simp: member_bucket_expected)
  qed
  have other: "c \<in> set (bucket (expected cs) ''Other'') \<and>
      (\<forall>k. k \<noteq> ''Other'' \<longrightarrow> c \<notin> set (bucket (expected cs) k))"
    if "c \<in> set cs" "type_line c = Some t" "\<forall>k \<in> set category_order. \<not> sublist k t" for c t
  proof -
    have "first_category t = ''Other''"
      using that(3) by (simp only: first_category_Other)
    then have "assigned c = Some ''Other''"
      using that(2) by (simp add: assigned_def)
    then show ?thesis
      using that(1) by (simp add: member_bucket_expected)
  qed
  have conspiracy: "\<forall>c \<in> set cs. type_line c = Some ''Conspiracy''
      \<longrightarrow> c \<in> set (bucket (expected cs) ''Other'')"
    by (simp add: bucket_expected assigned_def demo_first_category)
  have again: "\<forall>n. render_passes n cs = replicate n (Inr (expected cs))"
    by (simp add: render_passes_replicate run)
  show ?thesis
    using run keys all one other conspiracy again by blast
qed

theorem categorize_total_witness:
  "string_typed demo_cards \<and>
   (\<exists>cats. categorize_cards demo_cards = Inr cats \<and>
      distinct (map fst cats) \<and>
      mset (concat (map snd cats)) = mset demo_cards \<and>
      demo_cards ! 2 \<in> set (bucket cats ''Other'') \<and>
      demo_cards ! 2 \<notin> set (bucket cats ''Land'') \<and>
      (\<exists>!k. demo_cards ! 0 \<in> set (bucket cats k)) \<and>
      render_passes 2 demo_cards = [Inr cats, Inr cats])"
proof -
  obtain cats where c: "categorize_cards demo_cards = Inr cats"
    and d: "distinct (map fst cats)"
    and m: "mset (concat (map snd cats)) = mset demo_cards"
    and u: "\<forall>c \<in> set demo_cards. \<exists>!k. c \<in> set (bucket cats k)"
    and o: "\<forall>c \<in> set demo_cards. \<forall>t. type_line c = Some t \<and>
               (\<forall>k \<in> set category_order. \<not> sublist k t)
              \<longrightarrow> c \<in> set (bucket cats ''Other'') \<and>
                  (\<forall>k. k \<noteq> ''Other'' \<longrightarrow> c \<notin> set (bucket cats k))"
    and r: "\<forall>n. render_passes n demo_cards = replicate n (Inr cats)"
    using categorize_total [OF demo_string_typed] by blast
  have mem: "demo_cards ! 2 \<in> set demo_cards" "demo_cards ! 0 \<in> set demo_cards"
    and ty: "type_line (demo_cards ! 2) = Some ''Conspiracy''"
    by (simp_all add: demo_cards_def)
  have none: "\<forall>k \<in> set category_order. \<not> sublist k ''Conspiracy''"
    using demo_first_category(3) by (simp only: first_category_Other)
  have "demo_cards ! 2 \<in> set (bucket cats ''Other'') \<and>
      (\<forall>k. k \<noteq> ''Other'' \<longrightarrow> demo_cards ! 2 \<notin> set (bucket cats k))"
    using o mem(1) ty none by blast
  then have x: "demo_cards ! 2 \<in> set (bucket cats ''Other'')"
    and y: "demo_cards ! 2 \<notin> set (bucket cats ''Land'')"
    by simp_all
  have z: "\<exists>!k. demo_cards ! 0 \<in> set (bucket cats k)"
    using u mem(2) by blast
  have "render_passes 2 demo_cards = replicate 2 (Inr cats)"
    using r by blast
  then have w: "render_passes 2 demo_cards = [Inr cats, Inr cats]"
    by (simp add: numeral_2_eq_2)
  show ?thesis
    using c d m x y z w demo_string_typed by blast
qed

text \<open>
  \<^bold>\<open>C10\<close>. Every bucket, Other included, lists its cards in the order of the deck: it is a
  subsequence of the deck's cards, namely the deck's cards restricted to the bucket's
  members. The Other key exists exactly when some card's type line contains none of the
  seven category names.
\<close>

theorem categorize_order:
  assumes "string_typed cs"
  shows "\<exists>cats. categorize_cards cs = Inr cats \<and>
           (\<forall>k. subseq (bucket cats k) cs \<and>
                bucket cats k = filter (\<lambda>c. c \<in> set (bucket cats k)) cs) \<and>
           ((''Other'' \<in> set (map fst cats)) =
            (\<exists>c \<in> set cs. \<exists>t. type_line c = Some t \<and>
               (\<forall>k \<in> set category_order. \<not> sublist k t)))"
proof -
  have run: "categorize_cards cs = Inr (expected cs)"
    using assms by (rule categorize_cards_expected)
  have order: "subseq (bucket (expected cs) k) cs \<and>
      bucket (expected cs) k = filter (\<lambda>c. c \<in> set (bucket (expected cs) k)) cs" for k
    by (auto simp: bucket_expected intro: filter_cong)
  have "(''Other'' \<in> set (map fst (expected cs))) =
      list_ex (\<lambda>c. assigned c = Some ''Other'') cs"
    using other_not_category by (simp add: keys_expected)
  also have "\<dots> = (\<exists>c \<in> set cs. \<exists>t. type_line c = Some t \<and>
      (\<forall>k \<in> set category_order. \<not> sublist k t))"
    by (auto simp: list_ex_iff assigned_def first_category_Other)
  finally show ?thesis
    using run order by blast
qed

theorem categorize_order_witness:
  "string_typed demo_cards \<and>
   (\<exists>cats. categorize_cards demo_cards = Inr cats \<and>
      subseq (bucket cats ''Creature'') demo_cards \<and>
      ''Other'' \<in> set (map fst cats))"
proof -
  obtain cats where c: "categorize_cards demo_cards = Inr cats"
    and s: "\<And>k. subseq (bucket cats k) demo_cards"
    and o: "(''Other'' \<in> set (map fst cats)) =
            (\<exists>c \<in> set demo_cards. \<exists>t. type_line c = Some t \<and>
               (\<forall>k \<in> set category_order. \<not> sublist k t))"
    using categorize_order [OF demo_string_typed] by blast
  have "\<forall>k \<in> set category_order. \<not> sublist k ''Conspiracy''"
    using demo_first_category(3) by (simp only: first_category_Other)
  then have "''Other'' \<in> set (map fst cats)"
    unfolding o by (simp add: demo_cards_def)
  then show ?thesis
    using c s demo_string_typed by blast
qed

section \<open>Properties of the export actions\<close>

lemma join_export: "join [CHR 0x0A] (map (\<lambda>c. ''1 '' @ name c) cs) = exportAsText cs"
  by (induction cs rule: exportAsText.induct) simp_all

lemma export_quantity: "exportAsText (map (\<lambda>c. c\<lparr>quantity := q c\<rparr>) cs) = exportAsText cs"
  by (induction cs rule: exportAsText.induct) simp_all

text \<open>
  \<^bold>\<open>C4\<close>. The text copied to the clipboard and the text put in the downloaded file are the
  same string: one line per card, in the order of the deck's cards, each line the literal
  1, a space and the card's name, joined by newlines. It does not depend on any card's
  quantity. On the deck of Sol Ring and Arcane Signet it is the two lines
  \<open>1 Sol Ring\<close> and \<open>1 Arcane Signet\<close> separated by one newline.
\<close>

theorem export_text:
  "copyDeck d = [ClipboardWrite (exportAsText (cards d)), Alert ''Deck list copied to clipboard!'']
   \<and> downloadDeck d = [Download (exportAsText (cards d))]
   \<and> exportAsText (map (\<lambda>c. c\<lparr>quantity := q c\<rparr>) cs) = exportAsText cs
   \<and> exportAsText
        [\<lparr>name = ''Sol Ring'', type_line = t1, image_uri = i1, quantity = q1\<rparr>,
         \<lparr>name = ''Arcane Signet'', type_line = t2, image_uri = i2, quantity = q2\<rparr>]
       = ''1 Sol Ring'' @ [CHR 0x0A] @ ''1 Arcane Signet''"
proof -
  have "copyDeck d =
      [ClipboardWrite (exportAsText (cards d)), Alert ''Deck list copied to clipboard!'']"
    unfolding copyDeck_def join_export by (rule refl)
  moreover have "downloadDeck d = [Download (exportAsText (cards d))]"
    unfolding downloadDeck_def join_export by (rule refl)
  ultimately show ?thesis
    by (simp add: export_quantity)
qed

section \<open>Properties of the results page's loading\<close>

text \<open>
  When the request for the deck fails, the page makes two calls, the request and
  \<open>console.error\<close>; it raises no dialog, and what it shows is still the loading
  placeholder, which carries no message. So the failure is not surfaced to the user.
\<close>

theorem fetchDeck_failure_counterexample:
  "snd (fetchDeck ''42'' Results_init (Inl ServiceError)) =
     [HttpGet ''http://localhost:8000/api/deck/42'', ConsoleError ServiceError]
   \<and> alerts (snd (fetchDeck ''42'' Results_init (Inl ServiceError))) = []
   \<and> render (fst (fetchDeck ''42'' Results_init (Inl ServiceError))) = Inr Loading"
  by (simp add: fetchDeck_def Results_init_def alerts_def render_def API_URL_def)

text \<open>
  \<^bold>\<open>C9\<close>, in the form that holds of the code. For every job id, a failed request for
  the deck is logged to the console only: the page's state is unchanged and no message is
  shown to the user. While no deck is held (initially, and after a failed request) the
  page shows the loading placeholder, never a part of the deck page.
\<close>

theorem fetchDeck_failure:
  "fetchDeck jid s (Inl err) = (s, [HttpGet (API_URL @ ''/deck/'' @ jid), ConsoleError err])
   \<and> alerts (snd (fetchDeck jid s (Inl err))) = []
   \<and> render Results_init = Inr Loading
   \<and> render (s\<lparr>deck := None\<rparr>) = Inr Loading
   \<and> render (fst (fetchDeck jid Results_init (Inl err))) = Inr Loading"
  by (simp add: fetchDeck_def Results_init_def alerts_def render_def)

section \<open>Properties of the generator page\<close>

text \<open>
  \<^bold>\<open>C6\<close>. When the commander request fails (any rejection, a timeout included), the page
  raises the dialog \<open>Failed to generate commander\<close>, leaves the commander it held (if any)
  and every other state variable but the loading flag as they were, and has sent the
  request exactly once: there is no retry.
\<close>

theorem generateCommander_failure:
  "generateCommander s (Inl err) =
     (s\<lparr>loadingCmd := False\<rparr>,
      [HttpPost (API_URL @ ''/generate/commander'') (PromptBody (prompt s)),
       Alert ''Failed to generate commander''])
   \<and> commander (fst (generateCommander s (Inl err))) = commander s
   \<and> alerts (snd (generateCommander s (Inl err))) = [''Failed to generate commander'']
   \<and> posts (snd (generateCommander s (Inl err))) = [API_URL @ ''/generate/commander'']"
  by (simp add: generateCommander_def alerts_def posts_def)

text \<open>
  \<^bold>\<open>C7\<close>. Without a commander \<open>generateDeck\<close> does nothing: no request, no dialog, no
  navigation, the state unchanged. With a commander and a deck count above one, when the
  service answers with a job id, the page tells the user that several decks were started
  and that it redirects to the first one, and it navigates exactly once, to the process
  page of the job id the service returned.
\<close>

theorem generateDeck_first_job:
  "(commander s = None \<longrightarrow> generateDeck s res = (s, []))
   \<and> (commander s = Some c \<and> numDecks s = Some n \<and> 1 < n \<longrightarrow>
        fst (generateDeck s (Inr deck_id)) = s
        \<and> alerts (snd (generateDeck s (Inr deck_id))) =
            [''Started generating '' @ show_nat (nat n) @ '' decks. Redirecting to the first one.'']
        \<and> navigations (snd (generateDeck s (Inr deck_id))) = [''/process/'' @ deck_id]
        \<and> posts (snd (generateDeck s (Inr deck_id))) = [API_URL @ ''/generate/deck''])"
  by (simp add: generateDeck_def alerts_def navigations_def posts_def gt1_def ToString_def)

theorem generateDeck_first_job_witness:
  "commander demo_generator = Some demo_commander
   \<and> numDecks demo_generator = Some 3
   \<and> generateDeck (demo_generator\<lparr>commander := None\<rparr>) (Inr ''7'') =
     (demo_generator\<lparr>commander := None\<rparr>, [])
   \<and> alerts (snd (generateDeck demo_generator (Inr ''7''))) =
        [''Started generating 3 decks. Redirecting to the first one.'']
   \<and> navigations (snd (generateDeck demo_generator (Inr ''7''))) = [''/process/7'']"
proof -
  have n: "show_nat (nat 3) = ''3''"
    by (simp add: show_nat.simps [of 3])
  have a: "commander (demo_generator\<lparr>commander := None\<rparr>) = None"
    by simp
  have b: "commander demo_generator = Some demo_commander \<and> numDecks demo_generator = Some 3
      \<and> (1::int) < 3"
    by (simp add: demo_generator_def)
  show ?thesis
    using generateDeck_first_job [where s = "demo_generator\<lparr>commander := None\<rparr>"
        and res = "Inr ''7''"] a
      generateDeck_first_job [where s = demo_generator and c = demo_commander and n = 3
        and deck_id = "''7''"] b n
    by simp
qed

section \<open>Properties of the job monitor\<close>

lemma opened_append: "opened (xs @ ys) = opened xs @ opened ys"
  by (simp add: opened_def)

lemma opened_step: "opened (effects (step jid s ev)) = opened (effects s)"
  by (cases ev)
    (auto simp: step_def checkStatus_def onmessage_def timer_fire_def cleanup_def opened_append
      opened_def split: sum.splits frame.splits list.splits)

lemma opened_run: "opened (effects (run jid s evs)) = opened (effects s)"
  unfolding run_def by (induction evs arbitrary: s) (simp_all add: opened_step)

text \<open>
  The status request answers \<open>completed\<close> for job 42. The calls made are the request, the
  opening of the socket at \<open>/ws/process/42\<close> and the navigation: a connection was opened.
\<close>

theorem mount_opens_stream_counterexample:
  "opened (effects (run ''42'' (mount ''42'') [StatusResponse (Inr ''completed'')])) =
     [''ws://localhost:8000/ws/process/42'']
   \<and> effects (run ''42'' (mount ''42'') [StatusResponse (Inr ''completed'')]) =
     [HttpGet ''http://localhost:8000/api/deck/42'', WsOpen ''ws://localhost:8000/ws/process/42'',
      Navigate ''/results/42'']"
  by (simp add: run_def step_def mount_def checkStatus_def opened_def API_URL_def WS_URL_def)

text \<open>
  \<^bold>\<open>C1\<close>, in the form that holds of the code. For every job id, when the one status
  request answers \<open>completed\<close> the monitor sets its state to \<open>completed\<close> and navigates
  to the results page at once.
  The streaming connection to \<open>/ws/process/{id}\<close> is opened all the same: the mount opens
  it unconditionally, right after sending the status request and before any answer, and
  whatever events follow, that one connection is the only one opened.
\<close>

theorem completed_status_handoff:
  "(fetch_pending s \<longrightarrow>
      status (step jid s (StatusResponse (Inr ''completed''))) = ''completed''
      \<and> effects (step jid s (StatusResponse (Inr ''completed''))) =
          effects s @ [Navigate (''/results/'' @ jid)])
   \<and> effects (mount jid) = [HttpGet (API_URL @ ''/deck/'' @ jid), WsOpen (WS_URL @ ''/'' @ jid)]
   \<and> fetch_pending (mount jid)
   \<and> opened (effects (run jid (mount jid) evs)) = [WS_URL @ ''/'' @ jid]"
proof -
  have "opened (effects (mount jid)) = [WS_URL @ ''/'' @ jid]"
    by (simp add: mount_def opened_def)
  then have "opened (effects (run jid (mount jid) evs)) = [WS_URL @ ''/'' @ jid]"
    by (simp only: opened_run)
  then show ?thesis
    by (simp add: step_def checkStatus_def mount_def)
qed

theorem completed_status_handoff_witness:
  "fetch_pending (mount ''42'')
   \<and> status (step ''42'' (mount ''42'') (StatusResponse (Inr ''completed''))) = ''completed''
   \<and> effects (step ''42'' (mount ''42'') (StatusResponse (Inr ''completed''))) =
       [HttpGet (API_URL @ ''/deck/42''), WsOpen (WS_URL @ ''/42''), Navigate ''/results/42'']"
  using completed_status_handoff [of "mount ''42''" "''42''" "[]"]
  by (simp add: mount_def)

lemma timers_onmessage:
  "length (timers (onmessage jid s f)) = length (timers s) + (if is_sentinel f then 1 else 0)"
  by (simp add: onmessage_def is_sentinel_def split: frame.splits)

lemma timers_frames:
  "length (timers (foldl (onmessage jid) s fs)) = length (timers s) + length (filter is_sentinel fs)"
  by (induction fs arbitrary: s) (simp_all add: timers_onmessage)

text \<open>
  The completion message arrives twice before the first timer fires. Both timers fire,
  the second after the page was unmounted, and \<open>navigate\<close> is called twice.
\<close>

theorem sentinel_schedules_handoff_counterexample:
  "navigations (effects (run ''42'' (mount ''42'')
      [WsMessage (Frame done_event), WsMessage (Frame done_event), TimerFire, Unmount, TimerFire]))
   = [''/results/42'', ''/results/42'']"
  by (simp add: run_def step_def mount_def onmessage_def timer_fire_def cleanup_def
      navigations_def done_event_def sentinel_def)

text \<open>
  \<^bold>\<open>C5\<close>, in the form that holds of the code. Each stream event whose message is the
  completion sentinel sets the state to \<open>completed\<close> and schedules one navigation to the
  results page on a timer of 2000 ms; nothing navigates at the receipt itself, and the
  timer's firing is what calls \<open>navigate\<close>. The monitor does not deduplicate: the
  number of navigations scheduled grows by the number of sentinel events received, so one
  sentinel schedules exactly one and two schedule two.
\<close>

theorem sentinel_schedules_handoff:
  "(message msg = sentinel \<longrightarrow>
      status (onmessage jid s (Frame msg)) = ''completed''
      \<and> effects (onmessage jid s (Frame msg)) = effects s @ [SetTimeout 2000 (''/results/'' @ jid)]
      \<and> navigations (effects (onmessage jid s (Frame msg))) = navigations (effects s)
      \<and> timers (onmessage jid s (Frame msg)) = timers s @ [''/results/'' @ jid])
   \<and> effects (timer_fire (s\<lparr>timers := p # ps\<rparr>)) = effects s @ [Navigate p]
   \<and> length (timers (foldl (onmessage jid) s fs)) =
       length (timers s) + length (filter is_sentinel fs)"
  by (simp add: timers_frames onmessage_def timer_fire_def navigations_def)

theorem sentinel_schedules_handoff_witness:
  "message done_event = sentinel
   \<and> status (onmessage ''42'' (mount ''42'') (Frame done_event)) = ''completed''
   \<and> timers (onmessage ''42'' (mount ''42'') (Frame done_event)) = [''/results/42'']
   \<and> navigations (effects (onmessage ''42'' (mount ''42'') (Frame done_event))) = []
   \<and> length (timers (foldl (onmessage ''42'') (mount ''42'') [Frame done_event, Frame done_event])) = 2"
proof -
  have m: "message done_event = sentinel"
    by (simp add: done_event_def sentinel_def)
  have f: "is_sentinel (Frame done_event)"
    by (simp add: is_sentinel_def m)
  show ?thesis
    using sentinel_schedules_handoff [where msg = done_event and jid = "''42''"
        and s = "mount ''42''" and fs = "[Frame done_event, Frame done_event]"] m f
    by (simp add: mount_def navigations_def)
qed

lemma logs_onmessage: "logs (onmessage jid s f) = logs s @ parsed [f]"
  by (simp add: onmessage_def parsed_def split: frame.splits)

lemma logs_frames: "logs (foldl (onmessage jid) s fs) = logs s @ parsed fs"
proof (induction fs arbitrary: s)
  case Nil
  then show ?case by (simp add: parsed_def)
next
  case (Cons f fs)
  show ?case
    by (simp add: Cons.IH logs_onmessage) (simp add: parsed_def)
qed

lemma status_onmessage: "\<not> is_sentinel f \<Longrightarrow> status (onmessage jid s f) = status s"
  by (simp add: onmessage_def is_sentinel_def split: frame.splits)

lemma status_frames:
  "list_all (\<lambda>f. \<not> is_sentinel f) fs \<Longrightarrow> status (foldl (onmessage jid) s fs) = status s"
  by (induction fs arbitrary: s) (simp_all add: status_onmessage)

text \<open>
  \<^bold>\<open>C8\<close>. For every sequence of frames handled by \<open>onmessage\<close>, the log afterwards is the
  log before followed by the parsed events of the frames, in arrival order, with nothing
  reordered or removed: an event delivered twice is in the log twice. An event whose
  message is not the sentinel leaves the state as it was; so after any frames none of
  which is the sentinel the state is unchanged, and a monitor just mounted is still
  \<open>pending\<close>.
\<close>

theorem log_append_only:
  "logs (foldl (onmessage jid) s fs) = logs s @ parsed fs
   \<and> logs (onmessage jid (onmessage jid s (Frame msg)) (Frame msg)) = logs s @ [msg, msg]
   \<and> (message msg \<noteq> sentinel \<longrightarrow> status (onmessage jid s (Frame msg)) = status s)
   \<and> (list_all (\<lambda>f. \<not> is_sentinel f) fs \<longrightarrow>
        status (foldl (onmessage jid) s fs) = status s
        \<and> status (foldl (onmessage jid) (mount jid) fs) = ''pending'')"
proof -
  have "logs (onmessage jid (onmessage jid s (Frame msg)) (Frame msg)) = logs s @ [msg, msg]"
    by (simp add: logs_onmessage parsed_def)
  moreover have "status (foldl (onmessage jid) (mount jid) fs) = ''pending''"
    if "list_all (\<lambda>f. \<not> is_sentinel f) fs"
    using status_frames [OF that, of jid "mount jid"] by (simp add: mount_def)
  ultimately show ?thesis
    using status_onmessage [of "Frame msg" jid s]
    by (simp add: logs_frames status_frames is_sentinel_def)
qed

theorem log_append_only_witness:
  "message progress_event \<noteq> sentinel
   \<and> list_all (\<lambda>f. \<not> is_sentinel f) [Frame progress_event, BadJSON, Frame progress_event]
   \<and> logs (foldl (onmessage ''42'') (mount ''42'') [Frame progress_event, BadJSON, Frame progress_event])
       = [progress_event, progress_event]
   \<and> status (foldl (onmessage ''42'') (mount ''42'') [Frame progress_event, BadJSON, Frame progress_event])
       = ''pending''
   \<and> status (onmessage ''42'' (mount ''42'') (Frame progress_event)) = ''pending''"
proof -
  have m: "message progress_event \<noteq> sentinel"
    by (simp add: progress_event_def sentinel_def)
  have a: "list_all (\<lambda>f. \<not> is_sentinel f) [Frame progress_event, BadJSON, Frame progress_event]"
    by (simp add: is_sentinel_def m)
  show ?thesis
    using log_append_only [where msg = progress_event and jid = "''42''" and s = "mount ''42''"
        and fs = "[Frame progress_event, BadJSON, Frame progress_event]"] m a
    by (simp add: mount_def parsed_def)
qed

end
